theory Spec2Isabelle
  imports Main "HOL-Library.Word" "HOL-Library.Multiset"
    "HOL-Library.Char_ord" "HOL-Library.List_Lexorder"
begin

section \<open>Tables\<close>

text \<open>
  Both programs, \<^verbatim>\<open>import_csvs.py\<close> and \<^verbatim>\<open>app.py\<close>, work on pandas
  data frames. A frame is modelled by its column labels and its rows, every row holding
  one cell per label. A cell is a missing value (\<^verbatim>\<open>NaN\<close>, \<^verbatim>\<open>None\<close>, \<^verbatim>\<open>NA\<close>),
  a 64-bit integer (SQLite \<^verbatim>\<open>INTEGER\<close>, numpy \<^verbatim>\<open>int64\<close>), a float (its
  64 bits, carried and compared for equality, never computed on) or a string. The row
  labels (the index) play no part in what the programs compute and are left out.
\<close>

datatype cell = NA | IntV (the_int: "64 word") | FloatV (the_bits: "64 word") | StrV (the_str: string)

record dataframe =
  columns :: "string list"
  rows :: "cell list list"

text \<open>
  What the source can raise, as values. \<open>Unmodelled\<close> is not a Python exception: it
  marks a computation on floats or on a column that is not \<^verbatim>\<open>int64\<close>, which this
  development does not describe.
\<close>

datatype error = DatabaseError | KeyError string | TypeError | CsvError | Unmodelled

text \<open>\<^verbatim>\<open>pd.DataFrame(columns=cols)\<close>: the labels and no row.\<close>

definition empty_frame :: "string list \<Rightarrow> dataframe" where
  "empty_frame cols = \<lparr>columns = cols, rows = []\<rparr>"

text \<open>\<^verbatim>\<open>df.empty\<close>: one of the two axes has length 0.\<close>

definition is_empty :: "dataframe \<Rightarrow> bool" where
  "is_empty df \<longleftrightarrow> rows df = [] \<or> columns df = []"

text \<open>The position of the first occurrence of a label; the length when there is none.\<close>

fun index_of :: "'a list \<Rightarrow> 'a \<Rightarrow> nat" where
  "index_of [] x = 0"
| "index_of (y # ys) x = (if x = y then 0 else Suc (index_of ys x))"

text \<open>
  \<^verbatim>\<open>df[c]\<close> for one label: the cells of that column, top to bottom; \<^verbatim>\<open>KeyError\<close>
  when no column has the label. The tables come out of \<^verbatim>\<open>SELECT *\<close> on one SQLite
  table, so no label occurs twice; the first occurrence is read.
\<close>

definition get_column :: "dataframe \<Rightarrow> string \<Rightarrow> error + cell list" where
  "get_column df c =
     (if c \<in> set (columns df)
      then Inr (map (\<lambda>r. r ! index_of (columns df) c) (rows df))
      else Inl (KeyError c))"

text \<open>
  \<^verbatim>\<open>df[keys]\<close> for a list of labels: \<^verbatim>\<open>KeyError\<close> when a label is missing,
  otherwise the columns with these labels, in the order of \<open>keys\<close>; a label that
  occurs more than once in the frame brings all its columns.
\<close>

definition label_positions :: "string list \<Rightarrow> string \<Rightarrow> nat list" where
  "label_positions cs c = filter (\<lambda>i. cs ! i = c) [0..<length cs]"

definition take_columns :: "dataframe \<Rightarrow> nat list \<Rightarrow> dataframe" where
  "take_columns df idx =
     \<lparr>columns = map (\<lambda>i. columns df ! i) idx,
      rows = map (\<lambda>r. map (\<lambda>i. r ! i) idx) (rows df)\<rparr>"

definition select_columns :: "dataframe \<Rightarrow> string list \<Rightarrow> error + dataframe" where
  "select_columns df keys =
     (case filter (\<lambda>k. k \<notin> set (columns df)) keys of
        k # _ \<Rightarrow> Inl (KeyError k)
      | [] \<Rightarrow> Inr (take_columns df (concat (map (label_positions (columns df)) keys))))"

text \<open>Boolean indexing \<^verbatim>\<open>df[mask]\<close>, the mask computed row by row.\<close>

definition filter_rows :: "(cell list \<Rightarrow> bool) \<Rightarrow> dataframe \<Rightarrow> dataframe" where
  "filter_rows p df = df\<lparr>rows := filter p (rows df)\<rparr>"

section \<open>The tolerant table reader (app.py)\<close>

text \<open>
  The store is the SQLite file: a map from table names to tables.
  \<^verbatim>\<open>pd.read_sql_query(f"SELECT * FROM {table}", conn)\<close> raises when the table does
  not exist.
\<close>

type_synonym store = "string \<rightharpoonup> dataframe"

definition read_sql_query :: "store \<Rightarrow> string \<Rightarrow> error + dataframe" where
  "read_sql_query db table = (case db table of None \<Rightarrow> Inl DatabaseError | Some df \<Rightarrow> Inr df)"

definition EXPECTED :: "string \<Rightarrow> string list" where
  "EXPECTED t =
     (if t = ''batting_avg'' then [''Name'', ''Team'', ''Year'', ''Batting_Average'']
      else if t = ''home_runs'' then [''Name'', ''Career_Home_Runs'']
      else if t = ''career_strikeouts'' then [''Name'', ''League'', ''Career_Strikeouts'']
      else [])"

text \<open>
  The body of \<^verbatim>\<open>read_table\<close>, from the outcome \<open>q\<close> of the query on: the
  \<^verbatim>\<open>except Exception\<close> clause catches what the query raises and what
  \<^verbatim>\<open>df[present]\<close> raises alike.
\<close>

definition read_table_body :: "error + dataframe \<Rightarrow> string list \<Rightarrow> dataframe" where
  "read_table_body q cols =
     (case q of
        Inl e \<Rightarrow> empty_frame cols
      | Inr df \<Rightarrow>
          (let present = filter (\<lambda>c. c \<in> set (columns df)) cols in
           if present \<noteq> [] then
             (case select_columns df present of
                Inl e \<Rightarrow> empty_frame cols
              | Inr projected \<Rightarrow> projected)
           else empty_frame cols))"

definition read_table :: "store \<Rightarrow> string \<Rightarrow> string list \<Rightarrow> dataframe" where
  "read_table conn table cols = read_table_body (read_sql_query conn table) cols"

definition load_data :: "store \<Rightarrow> dataframe \<times> dataframe \<times> dataframe" where
  "load_data conn =
     (read_table conn ''batting_avg'' (EXPECTED ''batting_avg''),
      read_table conn ''home_runs'' (EXPECTED ''home_runs''),
      read_table conn ''career_strikeouts'' (EXPECTED ''career_strikeouts''))"

section \<open>Cells, columns and sorting\<close>

text \<open>\<^verbatim>\<open>Series.dropna()\<close> and \<^verbatim>\<open>Series.unique()\<close> (first occurrences, in order).\<close>

definition dropna :: "cell list \<Rightarrow> cell list" where
  "dropna xs = filter (\<lambda>c. c \<noteq> NA) xs"

fun unique :: "'a list \<Rightarrow> 'a list" where
  "unique [] = []"
| "unique (x # xs) = x # unique (filter (\<lambda>y. y \<noteq> x) xs)"

text \<open>
  Python's \<^verbatim>\<open>sorted\<close> on a list of cells. It is stable. Integers are compared as
  signed numbers and strings by code points; comparing an integer with a string raises
  \<^verbatim>\<open>TypeError\<close>. The order of floats is not described.
\<close>

definition int_key :: "cell \<Rightarrow> int" where
  "int_key c = sint (the_int c)"

definition py_sorted :: "cell list \<Rightarrow> error + cell list" where
  "py_sorted xs =
     (if list_all is_IntV xs then Inr (sort_key int_key xs)
      else if list_all is_StrV xs then Inr (sort_key the_str xs)
      else if list_all (\<lambda>c. is_IntV c \<or> is_StrV c) xs then Inl TypeError
      else Inl Unmodelled)"

text \<open>\<^verbatim>\<open>sorted(df[c].dropna().unique())\<close>, the options of a sidebar widget.\<close>

definition available :: "dataframe \<Rightarrow> string \<Rightarrow> error + cell list" where
  "available df c =
     (case get_column df c of
        Inl e \<Rightarrow> Inl e
      | Inr col \<Rightarrow> py_sorted (unique (dropna col)))"

definition all_years :: "dataframe \<Rightarrow> error + cell list" where
  "all_years df_batting = available df_batting ''Year''"

definition all_teams :: "dataframe \<Rightarrow> error + cell list" where
  "all_teams df_batting = available df_batting ''Team''"










text \<open>
  \<^verbatim>\<open>df[name] = values\<close>: the column with that label is overwritten; a new label
  is appended as the last column.
\<close>

definition set_column :: "dataframe \<Rightarrow> string \<Rightarrow> cell list \<Rightarrow> dataframe" where
  "set_column df name vals =
     (if name \<in> set (columns df)
      then df\<lparr>rows := map2 (\<lambda>r v. r[index_of (columns df) name := v]) (rows df) vals\<rparr>
      else \<lparr>columns = columns df @ [name], rows = map2 (\<lambda>r v. r @ [v]) (rows df) vals\<rparr>)"

text \<open>
  \<^verbatim>\<open>series == value\<close>, cell by cell: a missing value equals nothing, not even
  itself.
\<close>

definition eq_cell :: "cell \<Rightarrow> cell \<Rightarrow> bool" where
  "eq_cell a b \<longleftrightarrow> a \<noteq> NA \<and> b \<noteq> NA \<and> a = b"

text \<open>
  \<^verbatim>\<open>left.merge(right, on=key, how="left")\<close>: every left row, in order, once for
  each right row with the same key (in the right table's order), or once with missing
  values when there is none. Labels other than the key that both tables have get the
  suffixes \<^verbatim>\<open>_x\<close> and \<^verbatim>\<open>_y\<close>. The join is described for keys that are strings
  or missing.
\<close>

definition is_text :: "cell \<Rightarrow> bool" where
  "is_text c \<longleftrightarrow> c = NA \<or> is_StrV c"

definition merge_left :: "dataframe \<Rightarrow> dataframe \<Rightarrow> string \<Rightarrow> error + dataframe" where
  "merge_left l r key =
     (if key \<notin> set (columns l) \<or> key \<notin> set (columns r) then Inl (KeyError key)
      else
        (let li = index_of (columns l) key;
             ri = index_of (columns r) key;
             rest = filter (\<lambda>j. j \<noteq> ri) [0..<length (columns r)];
             lcols = map (\<lambda>c. if c \<noteq> key \<and> c \<in> set (columns r) then c @ ''_x'' else c) (columns l);
             rcols = map (\<lambda>j. if columns r ! j \<noteq> key \<and> columns r ! j \<in> set (columns l)
                               then columns r ! j @ ''_y'' else columns r ! j) rest
         in if \<not> (list_all (\<lambda>a. is_text (a ! li)) (rows l) \<and> list_all (\<lambda>b. is_text (b ! ri)) (rows r))
            then Inl Unmodelled
            else Inr \<lparr>columns = lcols @ rcols,
                      rows = concat (map (\<lambda>a.
                               (case filter (\<lambda>b. b ! ri = a ! li) (rows r) of
                                  [] \<Rightarrow> [a @ replicate (length rest) NA]
                                | m # ms \<Rightarrow> map (\<lambda>b. a @ map (\<lambda>j. b ! j) rest) (m # ms)))
                             (rows l))\<rparr>))"

section \<open>The views (app.py)\<close>

text \<open>
  The sidebar, for the batting table: the options (and defaults) of the two
  multiselect widgets.
\<close>

definition sidebar_batting :: "dataframe \<Rightarrow> error + cell list \<times> cell list" where
  "sidebar_batting df_batting =
     (if \<not> is_empty df_batting then
        (case all_years df_batting of
           Inl e \<Rightarrow> Inl e
         | Inr years \<Rightarrow>
             (case all_teams df_batting of
                Inl e \<Rightarrow> Inl e
              | Inr teams \<Rightarrow> Inr (years, teams)))
      else Inr ([], []))"

text \<open>
  What a view puts on the page: an information box (\<^verbatim>\<open>st.info\<close>,
  \<^verbatim>\<open>st.write\<close>), a chart or a table with the data handed to it, or the error box
  of an \<^verbatim>\<open>except\<close> clause. Drawing a chart or a table is taken to succeed. An
  exception outside a \<^verbatim>\<open>try\<close> ends the script: the view returns \<open>Inl\<close>.
\<close>

datatype info = NoBattingData | NoRowsMatch | NoHomeRunData | NoPlayersMeetMin
  | NoStrikeoutData | NoStrikeoutsForLeague cell | LoadBattingData | NoCombinedStats

datatype widget = Info info | Chart dataframe | Table dataframe | ErrorBox





text \<open>
  The player view. \<open>choice\<close> is what the select box returns, one of the names of the
  batting table. Python's truth test on it fails for the empty string and for zero.
\<close>

definition truthy :: "cell \<Rightarrow> bool" where
  "truthy c =
     (case c of
        NA \<Rightarrow> False
      | IntV w \<Rightarrow> w \<noteq> 0
      | FloatV b \<Rightarrow> b \<noteq> 0 \<and> b \<noteq> 0x8000000000000000
      | StrV s \<Rightarrow> s \<noteq> [])"

definition combined_view ::
    "dataframe \<Rightarrow> dataframe \<Rightarrow> dataframe \<Rightarrow> cell \<Rightarrow> error + widget list" where
  "combined_view df_batting df_home_runs df_career_strikeouts choice =
     (if is_empty df_batting then Inr [Info LoadBattingData]
      else
        (case available df_batting ''Name'' of
           Inl e \<Rightarrow> Inl e
         | Inr player_list \<Rightarrow>
             if player_list \<noteq> [] \<and> truthy choice then
               (case (if \<not> is_empty df_home_runs
                      then merge_left
                             (filter_rows
                                (\<lambda>r. eq_cell (r ! index_of (columns df_batting) ''Name'') choice)
                                df_batting)
                             df_home_runs ''Name''
                      else Inr (filter_rows
                                  (\<lambda>r. eq_cell (r ! index_of (columns df_batting) ''Name'') choice)
                                  df_batting)) of
                  Inl e \<Rightarrow> Inl e
                | Inr with_hr \<Rightarrow>
                    (case (if \<not> is_empty df_career_strikeouts
                           then merge_left with_hr df_career_strikeouts ''Name''
                           else Inr with_hr) of
                       Inl e \<Rightarrow> Inl e
                     | Inr df_combined \<Rightarrow>
                         if is_empty df_combined then Inr [Info NoCombinedStats]
                         else
                           (case select_columns df_combined
                                   (filter (\<lambda>c. c \<in> set (columns df_combined))
                                      [''Year'', ''Batting_Average'', ''Career_Home_Runs'',
                                       ''Career_Strikeouts'']) of
                              Inl e \<Rightarrow> Inl e
                            | Inr shown \<Rightarrow> Inr [Table shown])))
             else Inr []))"

section \<open>The importer (import_csvs.py)\<close>

text \<open>
  The data directory: whether it exists and, for each file name, what
  \<^verbatim>\<open>pd.read_csv\<close> makes of the file: nothing when \<^verbatim>\<open>csv_path.exists()\<close> is
  false, the exception it raises, or the table it parses.
\<close>

record filesystem =
  dir_exists :: bool
  files :: "string \<rightharpoonup> (error + dataframe)"

text \<open>The lines the importer prints, and the state it works on.\<close>

datatype message =
    DirNotFound
  | Skipping string string
  | Loaded string string nat
  | TablesInDB "string set"

record world =
  db :: store
  out :: "message list"


datatype dtype = Str | Int64 | Float

definition CSV_DTYPES :: "string \<Rightarrow> (string \<times> dtype) list option" where
  "CSV_DTYPES t =
     (if t = ''batting_avg''
      then Some [(''Name'', Str), (''Team'', Str), (''Year'', Int64), (''Batting_Average'', Float)]
      else if t = ''home_runs'' then Some [(''Name'', Str), (''Career_Home_Runs'', Int64)]
      else if t = ''career_strikeouts''
      then Some [(''Name'', Str), (''League'', Str), (''Career_Strikeouts'', Int64)]
      else None)"

text \<open>\<^verbatim>\<open>c.strip().replace(" ", "_")\<close> on a column label.\<close>

definition is_space :: "char \<Rightarrow> bool" where
  "is_space c \<longleftrightarrow>
     c \<in> set [CHR 0x09, CHR 0x0A, CHR 0x0B, CHR 0x0C, CHR 0x0D,
              CHR 0x1C, CHR 0x1D, CHR 0x1E, CHR 0x1F, CHR 0x20]"

definition strip :: "string \<Rightarrow> string" where
  "strip s = rev (dropWhile is_space (rev (dropWhile is_space s)))"

definition replace_spaces :: "string \<Rightarrow> string" where
  "replace_spaces s = map (\<lambda>c. if c = CHR 0x20 then CHR ''_'' else c) s"

definition normalize_label :: "string \<Rightarrow> string" where
  "normalize_label c = replace_spaces (strip c)"

text \<open>
  \<^verbatim>\<open>series.astype(typ, errors="ignore")\<close>: the cast of the library is a parameter
  \<open>cast\<close>, \<open>None\<close> where it raises; then the column stays as it is.
\<close>

type_synonym caster = "dtype \<Rightarrow> cell list \<Rightarrow> cell list option"

definition astype_ignore :: "caster \<Rightarrow> dtype \<Rightarrow> cell list \<Rightarrow> cell list" where
  "astype_ignore cast typ col = (case cast typ col of None \<Rightarrow> col | Some col' \<Rightarrow> col')"

definition apply_dtype :: "caster \<Rightarrow> string \<times> dtype \<Rightarrow> dataframe \<Rightarrow> dataframe" where
  "apply_dtype cast item df =
     (case item of
        (col, typ) \<Rightarrow>
          if col \<in> set (columns df)
          then set_column df col
                 (astype_ignore cast typ (map (\<lambda>r. r ! index_of (columns df) col) (rows df)))
          else df)"

text \<open>
  The table \<^verbatim>\<open>import_one\<close> writes, from the parsed file: labels normalised, the
  declared types applied in the order of the dictionary.
\<close>

definition normalized :: "caster \<Rightarrow> string \<Rightarrow> dataframe \<Rightarrow> dataframe" where
  "normalized cast table_name df =
     (case CSV_DTYPES table_name of
        None \<Rightarrow> df\<lparr>columns := map normalize_label (columns df)\<rparr>
      | Some items \<Rightarrow>
          fold (apply_dtype cast) items (df\<lparr>columns := map normalize_label (columns df)\<rparr>))"

text \<open>
  \<^verbatim>\<open>df.to_sql(table_name, conn, if_exists="replace", index=False)\<close> drops the
  table of that name and writes the frame in its place. Two labels that normalise to
  the same text make a table SQLite rejects; what is then left of the old table is not
  described.
\<close>

definition import_one :: "caster \<Rightarrow> filesystem \<Rightarrow> string \<Rightarrow> string \<Rightarrow> world \<Rightarrow> error + world" where
  "import_one cast fs csv_name table_name w =
     (case files fs csv_name of
        None \<Rightarrow> Inr (w\<lparr>out := out w @ [Skipping table_name csv_name]\<rparr>)
      | Some (Inl e) \<Rightarrow> Inl e
      | Some (Inr parsed) \<Rightarrow>
          if \<not> distinct (map normalize_label (columns parsed)) then Inl Unmodelled
          else
            Inr \<lparr>db = (db w)(table_name \<mapsto> normalized cast table_name parsed),
                 out = out w @ [Loaded csv_name table_name
                                  (length (rows (normalized cast table_name parsed)))]\<rparr>)"




section \<open>The entities of the data model\<close>

text \<open>
  A HomeRunRecord table: the columns \<^verbatim>\<open>Name\<close> and \<^verbatim>\<open>Career_Home_Runs\<close>, the
  second an integer in every row.
\<close>

definition home_run_table :: "dataframe \<Rightarrow> bool" where
  "home_run_table df \<longleftrightarrow>
     columns df = [''Name'', ''Career_Home_Runs''] \<and>
     list_all (\<lambda>r. length r = 2 \<and> is_IntV (r ! 1)) (rows df)"

text \<open>
  A StrikeoutRecord table: the columns \<^verbatim>\<open>Name\<close>, \<^verbatim>\<open>League\<close> and
  \<^verbatim>\<open>Career_Strikeouts\<close>, the last an integer in every row; the league and the
  strikeouts of a row of such a table.
\<close>

definition strikeout_table :: "dataframe \<Rightarrow> bool" where
  "strikeout_table df \<longleftrightarrow>
     columns df = [''Name'', ''League'', ''Career_Strikeouts''] \<and>
     list_all (\<lambda>r. length r = 3 \<and> is_IntV (r ! 2)) (rows df)"



text \<open>
  A BattingRecord table: the columns \<^verbatim>\<open>Name\<close>, \<^verbatim>\<open>Team\<close>, \<^verbatim>\<open>Year\<close> and
  \<^verbatim>\<open>Batting_Average\<close>. In a table with text names every name is a string or
  missing. \<open>batting_of\<close> are the batting rows of a player, \<open>year_and_average\<close> the
  two cells of such a row that the player view shows.
\<close>

definition batting_table :: "dataframe \<Rightarrow> bool" where
  "batting_table df \<longleftrightarrow>
     columns df = [''Name'', ''Team'', ''Year'', ''Batting_Average''] \<and>
     list_all (\<lambda>r. length r = 4) (rows df)"

definition text_names :: "dataframe \<Rightarrow> bool" where
  "text_names df \<longleftrightarrow> list_all (\<lambda>r. is_text (r ! index_of (columns df) ''Name'')) (rows df)"

definition batting_of :: "dataframe \<Rightarrow> cell \<Rightarrow> cell list list" where
  "batting_of df_batting player =
     filter (\<lambda>r. r ! index_of (columns df_batting) ''Name'' = player) (rows df_batting)"

definition year_and_average :: "dataframe \<Rightarrow> cell list \<Rightarrow> cell list" where
  "year_and_average df r =
     [r ! index_of (columns df) ''Year'', r ! index_of (columns df) ''Batting_Average'']"

text \<open>
  The left join in the words of the specification: the values of column \<open>c\<close> that
  the table \<open>df\<close> contributes to a batting row of \<open>player\<close>. An empty table is not
  joined and contributes nothing; a table without a row for the player contributes one
  missing value; otherwise every row of the player contributes its value, in the order
  of the table.
\<close>

definition joined :: "dataframe \<Rightarrow> string \<Rightarrow> cell \<Rightarrow> cell list list" where
  "joined df c player =
     (if rows df = [] then [[]]
      else
        (case filter (\<lambda>m. m ! index_of (columns df) ''Name'' = player) (rows df) of
           [] \<Rightarrow> [[NA]]
         | m # ms \<Rightarrow> map (\<lambda>m. [m ! index_of (columns df) c]) (m # ms)))"

text \<open>
  What \<open>merge_left\<close> appends to a left row with key \<open>p\<close>: the cells of the other
  columns of every right row with that key, or missing values.
\<close>

definition right_parts :: "dataframe \<Rightarrow> string \<Rightarrow> cell \<Rightarrow> cell list list" where
  "right_parts r key p =
     (case filter (\<lambda>b. b ! index_of (columns r) key = p) (rows r) of
        [] \<Rightarrow> [replicate (length (filter (\<lambda>j. j \<noteq> index_of (columns r) key)
                                 [0..<length (columns r)])) NA]
      | m # ms \<Rightarrow>
          map (\<lambda>b. map (\<lambda>j. b ! j)
                 (filter (\<lambda>j. j \<noteq> index_of (columns r) key) [0..<length (columns r)]))
            (m # ms))"

section \<open>Example inputs\<close>

text \<open>
  A cast that keeps a column of strings as \<^verbatim>\<open>str\<close> and a column of integers as
  \<^verbatim>\<open>Int64\<close> and fails on everything else, a data directory holding only
  \<^verbatim>\<open>home_runs.csv\<close>, a directory that does not exist, and a store that already has a
  strikeout table.
\<close>

definition example_cast :: caster where
  "example_cast typ col =
     (case typ of
        Str \<Rightarrow> if list_all is_text col then Some col else None
      | Int64 \<Rightarrow> if list_all (\<lambda>c. c = NA \<or> is_IntV c) col then Some col else None
      | Float \<Rightarrow> None)"

definition example_csv :: dataframe where
  "example_csv =
     \<lparr>columns = ['' Name'', ''Career Home Runs''],
      rows = [[StrV ''Aaron'', IntV 755], [StrV ''Ruth'', IntV 714]]\<rparr>"

definition example_fs :: filesystem where
  "example_fs = \<lparr>dir_exists = True, files = [''home_runs.csv'' \<mapsto> Inr example_csv]\<rparr>"


definition example_world :: world where
  "example_world =
     \<lparr>db = [''career_strikeouts'' \<mapsto> \<lparr>columns = [''Name''], rows = []\<rparr>], out = []\<rparr>"

text \<open>
  Stored tables: one with the expected home-run columns among others and in another
  order, one with none of them, and a store whose tables lack expected columns.
\<close>

definition shuffled_home_runs :: dataframe where
  "shuffled_home_runs =
     \<lparr>columns = [''Career_Home_Runs'', ''Born'', ''Name''],
      rows = [[IntV 755, IntV 1934, StrV ''Aaron''], [IntV 714, IntV 1895, StrV ''Ruth'']]\<rparr>"

definition foreign_table :: dataframe where
  "foreign_table = \<lparr>columns = [''player'', ''hr''], rows = [[StrV ''Aaron'', IntV 755]]\<rparr>"

definition partial_store :: store where
  "partial_store =
     [''home_runs'' \<mapsto> \<lparr>columns = [''Name''], rows = [[StrV ''Aaron'']]\<rparr>,
      ''batting_avg'' \<mapsto> \<lparr>columns = [''Name'', ''Team''], rows = [[StrV ''Aaron'', StrV ''ATL'']]\<rparr>]"






text \<open>
  A player with batting rows for 2001 and 2002 and one home-run record, and a strikeout
  table without him.
\<close>

definition pujols_batting :: dataframe where
  "pujols_batting =
     \<lparr>columns = [''Name'', ''Team'', ''Year'', ''Batting_Average''],
      rows = [[StrV ''Pujols'', StrV ''STL'', IntV 2001, FloatV 0x3FD50E5604189375],
              [StrV ''Ruth'', StrV ''NYY'', IntV 1927, FloatV 0x3FD6C8B439581062],
              [StrV ''Pujols'', StrV ''STL'', IntV 2002, FloatV 0x3FD4189374BC6A7F]]\<rparr>"

definition pujols_home_runs :: dataframe where
  "pujols_home_runs =
     \<lparr>columns = [''Name'', ''Career_Home_Runs''],
      rows = [[StrV ''Ruth'', IntV 714], [StrV ''Pujols'', IntV 703]]\<rparr>"

definition ryan_strikeouts :: dataframe where
  "ryan_strikeouts =
     \<lparr>columns = [''Name'', ''League'', ''Career_Strikeouts''],
      rows = [[StrV ''Ryan'', StrV ''AL'', IntV 5714]]\<rparr>"

section \<open>Properties of the table operations\<close>

lemma index_of_less: "x \<in> set xs \<Longrightarrow> index_of xs x < length xs"
  by (induction xs) auto

lemma nth_index_of: "x \<in> set xs \<Longrightarrow> xs ! index_of xs x = x"
  by (induction xs) auto

lemma index_of_nth: "distinct xs \<Longrightarrow> i < length xs \<Longrightarrow> index_of xs (xs ! i) = i"
proof (induction xs arbitrary: i)
  case Nil
  then show ?case by simp
next
  case (Cons y ys)
  show ?case
  proof (cases i)
    case 0
    then show ?thesis by simp
  next
    case (Suc j)
    with Cons.prems have "ys ! j \<in> set ys" "y \<notin> set ys" by auto
    then have "ys ! j \<noteq> y" by auto
    with Cons Suc show ?thesis by auto
  qed
qed

lemma filter_eq_upt: "k < n \<Longrightarrow> filter (\<lambda>i. i = k) [0..<n] = [k]"
  by (induction n) (auto simp: less_Suc_eq)

lemma label_positions_distinct:
  assumes "distinct cs" and "c \<in> set cs"
  shows "label_positions cs c = [index_of cs c]"
proof -
  have "filter (\<lambda>i. cs ! i = c) [0..<length cs] = filter (\<lambda>i. i = index_of cs c) [0..<length cs]"
  proof (rule filter_cong[OF refl])
    fix i assume "i \<in> set [0..<length cs]"
    then have i: "i < length cs" by simp
    show "(cs ! i = c) = (i = index_of cs c)"
      using index_of_nth[OF assms(1) i] nth_index_of[OF assms(2)] by auto
  qed
  also have "\<dots> = [index_of cs c]"
    by (rule filter_eq_upt[OF index_of_less[OF assms(2)]])
  finally show ?thesis by (simp add: label_positions_def)
qed

lemma concat_label_positions:
  assumes "distinct cs" and "set keys \<subseteq> set cs"
  shows "concat (map (label_positions cs) keys) = map (index_of cs) keys"
  using assms(2) by (induction keys) (auto simp: label_positions_distinct[OF assms(1)])

lemma select_columns_present:
  assumes "distinct (columns df)" and "set keys \<subseteq> set (columns df)"
  shows "select_columns df keys =
           Inr \<lparr>columns = keys,
                rows = map (\<lambda>r. map (\<lambda>c. r ! index_of (columns df) c) keys) (rows df)\<rparr>"
proof -
  have none: "filter (\<lambda>k. k \<notin> set (columns df)) keys = []"
    using assms(2) by (auto simp: filter_empty_conv)
  have labels: "map (\<lambda>x. columns df ! index_of (columns df) x) keys = keys"
    using assms(2) by (induction keys) (auto simp: nth_index_of)
  show ?thesis
    by (simp add: select_columns_def none take_columns_def
        concat_label_positions[OF assms] labels comp_def)
qed

lemma read_table_body_none_present:
  "filter (\<lambda>c. c \<in> set (columns df)) cols = [] \<Longrightarrow>
   read_table_body (Inr df) cols = empty_frame cols"
  by (simp add: read_table_body_def)

lemma read_table_body_some_present:
  assumes "distinct (columns df)" and "filter (\<lambda>c. c \<in> set (columns df)) cols \<noteq> []"
  shows "read_table_body (Inr df) cols =
           \<lparr>columns = filter (\<lambda>c. c \<in> set (columns df)) cols,
            rows = map (\<lambda>r. map (\<lambda>c. r ! index_of (columns df) c)
                     (filter (\<lambda>c. c \<in> set (columns df)) cols)) (rows df)\<rparr>"
proof -
  have "set (filter (\<lambda>c. c \<in> set (columns df)) cols) \<subseteq> set (columns df)" by auto
  from select_columns_present[OF assms(1) this] assms(2) show ?thesis
    by (simp add: read_table_body_def Let_def)
qed

lemma read_table_body_stored:
  assumes "distinct (columns df)"
  shows "read_table_body (Inr df) cols =
           (if \<exists>c \<in> set cols. c \<in> set (columns df)
            then \<lparr>columns = filter (\<lambda>c. c \<in> set (columns df)) cols,
                  rows = map (\<lambda>r. map (\<lambda>c. r ! index_of (columns df) c)
                           (filter (\<lambda>c. c \<in> set (columns df)) cols)) (rows df)\<rparr>
            else empty_frame cols)"
proof (cases "filter (\<lambda>c. c \<in> set (columns df)) cols = []")
  case True
  then have "\<not> (\<exists>c \<in> set cols. c \<in> set (columns df))" by (auto simp: filter_empty_conv)
  with True show ?thesis by (simp add: read_table_body_none_present)
next
  case False
  then have "\<exists>c \<in> set cols. c \<in> set (columns df)" by (auto simp: filter_empty_conv)
  with False assms show ?thesis by (simp add: read_table_body_some_present)
qed

section \<open>The tolerant table reader\<close>

text \<open>
  Claim C1. \<^verbatim>\<open>read_table\<close> returns the expected labels and no row when the read
  raises, whatever the exception, and so when the table does not exist. For a stored
  table it returns the expected columns the table has, in the order of the expected
  list, every row cut down to these columns; when the table has none of them, it
  returns the expected labels and no row.
\<close>

theorem read_table_contract:
  "(\<forall>e. read_table_body (Inl e) cols = empty_frame cols) \<and>
   (conn table = None \<longrightarrow> read_table conn table cols = empty_frame cols) \<and>
   (conn table = Some df \<and> distinct (columns df) \<longrightarrow>
      read_table conn table cols =
        (if \<exists>c \<in> set cols. c \<in> set (columns df)
         then \<lparr>columns = filter (\<lambda>c. c \<in> set (columns df)) cols,
               rows = map (\<lambda>r. map (\<lambda>c. r ! index_of (columns df) c)
                        (filter (\<lambda>c. c \<in> set (columns df)) cols)) (rows df)\<rparr>
         else empty_frame cols))"
  by (simp add: read_table_def read_sql_query_def read_table_body_stored)
     (simp add: read_table_body_def)

theorem read_table_contract_witness:
  "read_table Map.empty ''home_runs'' (EXPECTED ''home_runs'') =
     \<lparr>columns = [''Name'', ''Career_Home_Runs''], rows = []\<rparr> \<and>
   read_table [''home_runs'' \<mapsto> shuffled_home_runs] ''home_runs'' (EXPECTED ''home_runs'') =
     \<lparr>columns = [''Name'', ''Career_Home_Runs''],
      rows = [[StrV ''Aaron'', IntV 755], [StrV ''Ruth'', IntV 714]]\<rparr> \<and>
   read_table [''home_runs'' \<mapsto> foreign_table] ''home_runs'' (EXPECTED ''home_runs'') =
     \<lparr>columns = [''Name'', ''Career_Home_Runs''], rows = []\<rparr>"
proof -
  have a: "(Map.empty :: store) ''home_runs'' = None" by simp
  have b: "[''home_runs'' \<mapsto> shuffled_home_runs] ''home_runs'' = Some shuffled_home_runs \<and>
           distinct (columns shuffled_home_runs)"
    by (simp add: shuffled_home_runs_def)
  have c: "[''home_runs'' \<mapsto> foreign_table] ''home_runs'' = Some foreign_table \<and>
           distinct (columns foreign_table)"
    by (simp add: foreign_table_def)
  from read_table_contract[of "EXPECTED ''home_runs''" Map.empty "''home_runs''"] a
  have 1: "read_table Map.empty ''home_runs'' (EXPECTED ''home_runs'') =
     \<lparr>columns = [''Name'', ''Career_Home_Runs''], rows = []\<rparr>"
    by (simp add: EXPECTED_def empty_frame_def)
  from read_table_contract[of "EXPECTED ''home_runs''" "[''home_runs'' \<mapsto> shuffled_home_runs]"
      "''home_runs''" shuffled_home_runs] b
  have 2: "read_table [''home_runs'' \<mapsto> shuffled_home_runs] ''home_runs'' (EXPECTED ''home_runs'') =
     \<lparr>columns = [''Name'', ''Career_Home_Runs''],
      rows = [[StrV ''Aaron'', IntV 755], [StrV ''Ruth'', IntV 714]]\<rparr>"
    by (simp add: EXPECTED_def empty_frame_def shuffled_home_runs_def)
  from read_table_contract[of "EXPECTED ''home_runs''" "[''home_runs'' \<mapsto> foreign_table]"
      "''home_runs''" foreign_table] c
  have 3: "read_table [''home_runs'' \<mapsto> foreign_table] ''home_runs'' (EXPECTED ''home_runs'') =
     \<lparr>columns = [''Name'', ''Career_Home_Runs''], rows = []\<rparr>"
    by (simp add: EXPECTED_def empty_frame_def foreign_table_def)
  from 1 2 3 show ?thesis by blast
qed

text \<open>
  Claim C2, amended. Every column of a result of \<^verbatim>\<open>read_table\<close> is an expected
  column. An expected column is in the result exactly when the table does not exist,
  or the stored table has the column, or the stored table has none of the expected
  columns: a stored table with some of the expected columns yields a result without
  the others.
\<close>

theorem read_table_columns:
  assumes "\<forall>df. conn table = Some df \<longrightarrow> distinct (columns df)"
  shows "set (columns (read_table conn table cols)) \<subseteq> set cols \<and>
         (\<forall>c \<in> set cols.
            c \<in> set (columns (read_table conn table cols)) \<longleftrightarrow>
              (case conn table of
                 None \<Rightarrow> True
               | Some df \<Rightarrow> c \<in> set (columns df) \<or> (\<forall>c' \<in> set cols. c' \<notin> set (columns df))))"
proof (cases "conn table")
  case None
  then show ?thesis
    by (simp add: read_table_def read_sql_query_def read_table_body_def empty_frame_def)
next
  case (Some df)
  with assms have "distinct (columns df)" by simp
  from read_table_body_stored[OF this, of cols] Some show ?thesis
    by (auto simp: read_table_def read_sql_query_def empty_frame_def)
qed

theorem read_table_columns_witness:
  "set (columns (read_table partial_store ''home_runs'' [''Name'', ''Career_Home_Runs'']))
     \<subseteq> {''Name'', ''Career_Home_Runs''} \<and>
   ''Name'' \<in> set (columns (read_table partial_store ''home_runs'' [''Name'', ''Career_Home_Runs'']))"
  using read_table_columns[of partial_store "''home_runs''" "[''Name'', ''Career_Home_Runs'']"]
  by (simp add: partial_store_def)

text \<open>
  The claim as stated fails: a stored home-run table with the single column
  \<^verbatim>\<open>Name\<close> is returned with that single column, and a batting table without the
  column \<^verbatim>\<open>Year\<close> makes the sidebar raise \<^verbatim>\<open>KeyError\<close>.
\<close>

theorem read_table_drops_missing_column:
  "''Career_Home_Runs'' \<in> set (EXPECTED ''home_runs'') \<and>
   read_table partial_store ''home_runs'' (EXPECTED ''home_runs'') =
     \<lparr>columns = [''Name''], rows = [[StrV ''Aaron'']]\<rparr> \<and>
   ''Career_Home_Runs'' \<notin>
     set (columns (read_table partial_store ''home_runs'' (EXPECTED ''home_runs''))) \<and>
   sidebar_batting (read_table partial_store ''batting_avg'' (EXPECTED ''batting_avg'')) =
     Inl (KeyError ''Year'')"
proof -
  have hr: "read_table partial_store ''home_runs'' (EXPECTED ''home_runs'') =
     \<lparr>columns = [''Name''], rows = [[StrV ''Aaron'']]\<rparr>"
    by (simp add: read_table_def read_sql_query_def partial_store_def read_table_body_stored
        EXPECTED_def)
  have ba: "read_table partial_store ''batting_avg'' (EXPECTED ''batting_avg'') =
     \<lparr>columns = [''Name'', ''Team''], rows = [[StrV ''Aaron'', StrV ''ATL'']]\<rparr>"
    by (simp add: read_table_def read_sql_query_def partial_store_def read_table_body_stored
        EXPECTED_def)
  show ?thesis
    unfolding hr ba
    by (simp add: EXPECTED_def sidebar_batting_def is_empty_def all_years_def available_def
        get_column_def)
qed

section \<open>The time series view\<close>

lemma set_unique: "set (unique xs) = set xs"
  by (induction xs rule: unique.induct) auto












section \<open>The ranking view\<close>

















section \<open>The cumulative series view\<close>




























section \<open>The combined player view\<close>

lemma merge_left_same_key:
  assumes l: "key \<in> set (columns l)" and r: "key \<in> set (columns r)"
    and p: "\<forall>a \<in> set (rows l). a ! index_of (columns l) key = p" and tp: "is_text p"
    and tr: "list_all (\<lambda>b. is_text (b ! index_of (columns r) key)) (rows r)"
    and disj: "set (columns l) \<inter> set (columns r) \<subseteq> {key}"
  shows "merge_left l r key =
           Inr \<lparr>columns = columns l @
                   map (\<lambda>j. columns r ! j)
                     (filter (\<lambda>j. j \<noteq> index_of (columns r) key) [0..<length (columns r)]),
                rows = concat (map (\<lambda>a. map (\<lambda>t. a @ t) (right_parts r key p)) (rows l))\<rparr>"
proof -
  let ?li = "index_of (columns l) key"
  let ?ri = "index_of (columns r) key"
  let ?rest = "filter (\<lambda>j. j \<noteq> ?ri) [0..<length (columns r)]"
  have tl: "list_all (\<lambda>a. is_text (a ! ?li)) (rows l)"
    using p tp by (simp add: list_all_iff)
  have lcols: "map (\<lambda>c. if c \<noteq> key \<and> c \<in> set (columns r) then c @ ''_x'' else c) (columns l) =
                 columns l"
    using disj by (intro map_idI) auto
  have rcols: "map (\<lambda>j. if columns r ! j \<noteq> key \<and> columns r ! j \<in> set (columns l)
                         then columns r ! j @ ''_y'' else columns r ! j) ?rest =
               map (\<lambda>j. columns r ! j) ?rest"
  proof (rule map_cong[OF refl])
    fix j assume "j \<in> set ?rest"
    then have "columns r ! j \<in> set (columns r)" by simp
    with disj have "columns r ! j \<in> set (columns l) \<Longrightarrow> columns r ! j = key" by auto
    then show "(if columns r ! j \<noteq> key \<and> columns r ! j \<in> set (columns l)
                then columns r ! j @ ''_y'' else columns r ! j) = columns r ! j"
      by auto
  qed
  have rws: "map (\<lambda>a. case filter (\<lambda>b. b ! ?ri = a ! ?li) (rows r) of
                        [] \<Rightarrow> [a @ replicate (length ?rest) NA]
                      | m # ms \<Rightarrow> map (\<lambda>b. a @ map (\<lambda>j. b ! j) ?rest) (m # ms)) (rows l) =
             map (\<lambda>a. map (\<lambda>t. a @ t) (right_parts r key p)) (rows l)"
  proof (rule map_cong[OF refl])
    fix a assume "a \<in> set (rows l)"
    with p have "a ! ?li = p" by simp
    then show "(case filter (\<lambda>b. b ! ?ri = a ! ?li) (rows r) of
                  [] \<Rightarrow> [a @ replicate (length ?rest) NA]
                | m # ms \<Rightarrow> map (\<lambda>b. a @ map (\<lambda>j. b ! j) ?rest) (m # ms)) =
               map (\<lambda>t. a @ t) (right_parts r key p)"
      by (simp add: right_parts_def comp_def split: list.split)
  qed
  show ?thesis
    unfolding merge_left_def Let_def lcols rcols rws using l r tl tr by simp
qed

lemma py_sorted_strings:
  assumes "list_all is_StrV xs"
  shows "\<exists>ys. py_sorted xs = Inr ys \<and> set ys = set xs"
proof (cases "list_all is_IntV xs")
  case True
  then show ?thesis by (simp add: py_sorted_def)
next
  case False
  with assms show ?thesis by (simp add: py_sorted_def)
qed

lemma available_names:
  assumes "batting_table b" and "text_names b" and "batting_of b (StrV n) \<noteq> []"
  shows "\<exists>pl. available b ''Name'' = Inr pl \<and> pl \<noteq> []"
proof -
  from assms(1) have cols: "columns b = [''Name'', ''Team'', ''Year'', ''Batting_Average'']"
    by (simp add: batting_table_def)
  let ?names = "map (\<lambda>r. r ! index_of (columns b) ''Name'') (rows b)"
  have g: "get_column b ''Name'' = Inr ?names" by (simp add: get_column_def cols)
  have "list_all is_text ?names" using assms(2) by (simp add: text_names_def list_all_iff)
  then have "list_all is_StrV (unique (dropna ?names))"
    by (auto simp: list_all_iff set_unique dropna_def is_text_def)
  from py_sorted_strings[OF this] obtain ys where
    ys: "py_sorted (unique (dropna ?names)) = Inr ys" "set ys = set (unique (dropna ?names))"
    by (elim exE conjE)
  from assms(3) obtain r where "r \<in> set (rows b)" "r ! index_of (columns b) ''Name'' = StrV n"
    by (auto simp: batting_of_def filter_empty_conv)
  then have "StrV n \<in> set (unique (dropna ?names))"
    by (force simp: set_unique dropna_def)
  with ys(2) have "ys \<noteq> []" by auto
  with g ys(1) show ?thesis by (simp add: available_def)
qed

lemma player_filter:
  assumes "batting_table b"
  shows "filter_rows (\<lambda>r. eq_cell (r ! index_of (columns b) ''Name'') (StrV n)) b =
           \<lparr>columns = [''Name'', ''Team'', ''Year'', ''Batting_Average''],
            rows = batting_of b (StrV n)\<rparr>"
proof -
  from assms have cols: "columns b = [''Name'', ''Team'', ''Year'', ''Batting_Average'']"
    by (simp add: batting_table_def)
  have "(\<lambda>r. eq_cell (r ! index_of (columns b) ''Name'') (StrV n)) =
        (\<lambda>r. r ! index_of (columns b) ''Name'' = StrV n)"
    by (auto simp: eq_cell_def)
  then show ?thesis
    using cols by (cases b) (simp add: filter_rows_def batting_of_def)
qed

lemma right_parts_home_runs:
  assumes "home_run_table hr" and "rows hr \<noteq> []"
  shows "right_parts hr ''Name'' p = joined hr ''Career_Home_Runs'' p"
  using assms
  by (simp add: right_parts_def joined_def home_run_table_def upt_rec[of 0] upt_rec[of 1]
      upt_rec[of "Suc 0"] split: list.split)

lemma right_parts_strikeouts:
  assumes "strikeout_table k" and "rows k \<noteq> []"
  shows "map (\<lambda>t. [t ! 1]) (right_parts k ''Name'' p) = joined k ''Career_Strikeouts'' p"
  using assms
  by (simp add: right_parts_def joined_def strikeout_table_def eval_nat_numeral
      upt_rec[of 0] upt_rec[of "Suc 0"] upt_rec[of "Suc (Suc 0)"] upt_rec[of "Suc (Suc (Suc 0))"]
      split: list.split)

lemma right_parts_strikeouts_length:
  assumes "strikeout_table k"
  shows "\<forall>t \<in> set (right_parts k ''Name'' p). length t = 2"
  using assms
  by (simp add: right_parts_def strikeout_table_def eval_nat_numeral
      upt_rec[of 0] upt_rec[of "Suc 0"] upt_rec[of "Suc (Suc 0)"] upt_rec[of "Suc (Suc (Suc 0))"]
      split: list.split)

lemma joined_length:
  "\<forall>h \<in> set (joined df c p). length h = (if rows df = [] then 0 else 1)"
  by (auto simp: joined_def split: list.split)

lemma joined_nonempty: "joined df c p \<noteq> []"
  by (simp add: joined_def split: list.split)

lemma project_row:
  assumes a: "length a = 4"
    and h: "hc = [] \<and> h = [] \<or> hc = [''Career_Home_Runs''] \<and> length h = 1"
    and t: "kc = [] \<and> t = [] \<or> kc = [''League'', ''Career_Strikeouts''] \<and> length t = 2"
  shows "map (\<lambda>c. (a @ h @ t) !
                 index_of ([''Name'', ''Team'', ''Year'', ''Batting_Average''] @ hc @ kc) c)
           ([''Year'', ''Batting_Average''] @ hc @ (if kc = [] then [] else [''Career_Strikeouts''])) =
         [a ! 2, a ! 3] @ h @ (if kc = [] then [] else [t ! 1])"
proof -
  from a obtain a0 a1 a2 a3 where a': "a = [a0, a1, a2, a3]"
    by (auto simp: eval_nat_numeral length_Suc_conv)
  from h consider "hc = []" "h = []" | h0 where "hc = [''Career_Home_Runs'']" "h = [h0]"
    by (auto simp: length_Suc_conv)
  then show ?thesis
  proof cases
    case 1
    from t consider "kc = []" "t = []" | t0 t1 where "kc = [''League'', ''Career_Strikeouts'']" "t = [t0, t1]"
      by (auto simp: eval_nat_numeral length_Suc_conv)
    then show ?thesis by cases (simp_all add: 1 a')
  next
    case 2
    from t consider "kc = []" "t = []" | t0 t1 where "kc = [''League'', ''Career_Strikeouts'']" "t = [t0, t1]"
      by (auto simp: eval_nat_numeral length_Suc_conv)
    then show ?thesis by cases (simp_all add: 2 a')
  qed
qed

lemma nested_rows:
  "concat (map (\<lambda>r. map (\<lambda>t. g r t) K) (concat (map (\<lambda>a. map (\<lambda>h. a @ h) H) pr))) =
   concat (map (\<lambda>a. concat (map (\<lambda>h. map (\<lambda>t. g (a @ h) t) K) H)) pr)"
  by (induction pr) (simp_all add: map_concat comp_def)

lemma nested_cong:
  assumes "\<And>a h t. a \<in> set pr \<Longrightarrow> h \<in> set H \<Longrightarrow> t \<in> set K \<Longrightarrow> F a h t = G a h t"
  shows "concat (map (\<lambda>a. concat (map (\<lambda>h. map (\<lambda>t. F a h t) K) H)) pr) =
         concat (map (\<lambda>a. concat (map (\<lambda>h. map (\<lambda>t. G a h t) K) H)) pr)"
  by (intro arg_cong[where f = concat] map_cong refl) (simp add: assms)

lemma batting_of_rows:
  assumes "batting_table b"
  shows "\<forall>a \<in> set (batting_of b p). length a = 4 \<and> a ! 0 = p"
  using assms by (auto simp: batting_table_def batting_of_def list_all_iff)

lemma with_home_runs:
  assumes "batting_table b" and "home_run_table hr" and "text_names hr"
  shows "(if \<not> is_empty hr
          then merge_left \<lparr>columns = [''Name'', ''Team'', ''Year'', ''Batting_Average''],
                            rows = batting_of b (StrV n)\<rparr> hr ''Name''
          else Inr \<lparr>columns = [''Name'', ''Team'', ''Year'', ''Batting_Average''],
                    rows = batting_of b (StrV n)\<rparr>) =
         Inr \<lparr>columns = [''Name'', ''Team'', ''Year'', ''Batting_Average''] @
                         (if rows hr = [] then [] else [''Career_Home_Runs'']),
              rows = concat (map (\<lambda>a. map (\<lambda>h. a @ h) (joined hr ''Career_Home_Runs'' (StrV n)))
                              (batting_of b (StrV n)))\<rparr>"
proof (cases "rows hr = []")
  case True
  then show ?thesis by (simp add: is_empty_def joined_def)
next
  case False
  from assms(2) have hc: "columns hr = [''Name'', ''Career_Home_Runs'']"
    by (simp add: home_run_table_def)
  let ?l = "\<lparr>columns = [''Name'', ''Team'', ''Year'', ''Batting_Average''],
              rows = batting_of b (StrV n)\<rparr>"
  have 1: "''Name'' \<in> set (columns ?l)" by simp
  have 2: "''Name'' \<in> set (columns hr)" by (simp add: hc)
  have 3: "\<forall>a \<in> set (rows ?l). a ! index_of (columns ?l) ''Name'' = StrV n"
    using batting_of_rows[OF assms(1)] by simp
  have 4: "is_text (StrV n)" by (simp add: is_text_def)
  have 5: "list_all (\<lambda>b. is_text (b ! index_of (columns hr) ''Name'')) (rows hr)"
    using assms(3) by (simp add: text_names_def)
  have 6: "set (columns ?l) \<inter> set (columns hr) \<subseteq> {''Name''}" by (simp add: hc)
  have e: "\<not> is_empty hr" using False by (simp add: is_empty_def hc)
  have c: "map (\<lambda>j. columns hr ! j)
             (filter (\<lambda>j. j \<noteq> index_of (columns hr) ''Name'') [0..<length (columns hr)]) =
           [''Career_Home_Runs'']"
    by (simp add: hc upt_rec[of 0] upt_rec[of 1] upt_rec[of "Suc 0"])
  show ?thesis
    unfolding merge_left_same_key[OF 1 2 3 4 5 6] c right_parts_home_runs[OF assms(2) False]
    using e False by simp
qed

lemma with_strikeouts:
  assumes "strikeout_table k" and "text_names k"
    and "\<forall>a \<in> set R. a ! 0 = StrV n"
    and "hc = [] \<or> hc = [''Career_Home_Runs'']"
  shows "(if \<not> is_empty k
          then merge_left \<lparr>columns = [''Name'', ''Team'', ''Year'', ''Batting_Average''] @ hc,
                            rows = R\<rparr> k ''Name''
          else Inr \<lparr>columns = [''Name'', ''Team'', ''Year'', ''Batting_Average''] @ hc,
                    rows = R\<rparr>) =
         Inr \<lparr>columns = [''Name'', ''Team'', ''Year'', ''Batting_Average''] @ hc @
                         (if rows k = [] then [] else [''League'', ''Career_Strikeouts'']),
              rows = concat (map (\<lambda>a. map (\<lambda>t. a @ t)
                               (if rows k = [] then [[]] else right_parts k ''Name'' (StrV n))) R)\<rparr>"
proof (cases "rows k = []")
  case True
  then show ?thesis by (simp add: is_empty_def)
next
  case False
  from assms(1) have kc: "columns k = [''Name'', ''League'', ''Career_Strikeouts'']"
    by (simp add: strikeout_table_def)
  let ?l = "\<lparr>columns = [''Name'', ''Team'', ''Year'', ''Batting_Average''] @ hc, rows = R\<rparr>"
  have 1: "''Name'' \<in> set (columns ?l)" by simp
  have 2: "''Name'' \<in> set (columns k)" by (simp add: kc)
  have 3: "\<forall>a \<in> set (rows ?l). a ! index_of (columns ?l) ''Name'' = StrV n"
    using assms(3) by simp
  have 4: "is_text (StrV n)" by (simp add: is_text_def)
  have 5: "list_all (\<lambda>b. is_text (b ! index_of (columns k) ''Name'')) (rows k)"
    using assms(2) by (simp add: text_names_def)
  have 6: "set (columns ?l) \<inter> set (columns k) \<subseteq> {''Name''}"
    using assms(4) by (auto simp: kc)
  have e: "\<not> is_empty k" using False by (simp add: is_empty_def kc)
  have c: "map (\<lambda>j. columns k ! j)
             (filter (\<lambda>j. j \<noteq> index_of (columns k) ''Name'') [0..<length (columns k)]) =
           [''League'', ''Career_Strikeouts'']"
    by (simp add: kc upt_rec[of 0] upt_rec[of "Suc 0"] upt_rec[of "Suc (Suc 0)"]
        upt_rec[of "Suc (Suc (Suc 0))"])
  show ?thesis
    unfolding merge_left_same_key[OF 1 2 3 4 5 6] c
    using e False by simp
qed

lemma map_nested_rows:
  "map f (concat (map (\<lambda>r. map (\<lambda>t. r @ t) K) (concat (map (\<lambda>a. map (\<lambda>h. a @ h) H) pr)))) =
   concat (map (\<lambda>a. concat (map (\<lambda>h. map (\<lambda>t. f ((a @ h) @ t)) K) H)) pr)"
  by (induction pr) (simp_all add: map_concat comp_def)

lemma combined_view_typed:
  assumes b: "batting_table b" and tb: "text_names b"
    and hr: "home_run_table hr" and thr: "text_names hr"
    and k: "strikeout_table k" and tk: "text_names k"
    and n: "n \<noteq> []" and pr: "batting_of b (StrV n) \<noteq> []"
  shows "combined_view b hr k (StrV n) =
           Inr [Table
             \<lparr>columns = [''Year'', ''Batting_Average''] @
                        (if rows hr = [] then [] else [''Career_Home_Runs'']) @
                        (if rows k = [] then [] else [''Career_Strikeouts'']),
              rows = concat (map (\<lambda>a. concat (map (\<lambda>h. map (\<lambda>s. year_and_average b a @ h @ s)
                                         (joined k ''Career_Strikeouts'' (StrV n)))
                                 (joined hr ''Career_Home_Runs'' (StrV n))))
                       (batting_of b (StrV n)))\<rparr>]"
proof -
  let ?c4 = "[''Name'', ''Team'', ''Year'', ''Batting_Average'']"
  let ?p = "StrV n"
  let ?pr = "batting_of b ?p"
  let ?H = "joined hr ''Career_Home_Runs'' ?p"
  let ?K = "if rows k = [] then [[]] else right_parts k ''Name'' ?p"
  let ?hc = "if rows hr = [] then [] else [''Career_Home_Runs'']"
  let ?kc = "if rows k = [] then [] else [''League'', ''Career_Strikeouts'']"
  let ?R1 = "concat (map (\<lambda>a. map (\<lambda>h. a @ h) ?H) ?pr)"
  let ?RR = "concat (map (\<lambda>r. map (\<lambda>t. r @ t) ?K) ?R1)"
  let ?cols = "?c4 @ ?hc @ ?kc"
  let ?keep = "[''Year'', ''Batting_Average''] @ ?hc @
               (if rows k = [] then [] else [''Career_Strikeouts''])"
  let ?f = "\<lambda>r. map (\<lambda>c. r ! index_of ?cols c) ?keep"
  from b have cols: "columns b = ?c4" by (simp add: batting_table_def)
  from pr have rb: "rows b \<noteq> []" by (auto simp: batting_of_def)
  have e: "\<not> is_empty b" using rb by (simp add: is_empty_def cols)
  from available_names[OF b tb pr] obtain pl where
    pl: "available b ''Name'' = Inr pl" "pl \<noteq> []" by (elim exE conjE)
  have tr: "truthy ?p" using n by (simp add: truthy_def)
  note pf = player_filter[OF b, of n]
  note w1 = with_home_runs[OF b hr thr, of n]
  have key1: "\<forall>a \<in> set ?R1. a ! 0 = ?p"
    using batting_of_rows[OF b, of ?p] by (auto simp: nth_append)
  have hc: "?hc = [] \<or> ?hc = [''Career_Home_Runs'']" by simp
  note w2 = with_strikeouts[OF k tk key1 hc]
  have Hn: "?H \<noteq> []" by (rule joined_nonempty)
  have Kn: "?K \<noteq> []" by (simp add: right_parts_def split: list.split)
  from pr obtain a0 where a0: "a0 \<in> set ?pr" by (cases ?pr) auto
  from Hn obtain h0 where h0: "h0 \<in> set ?H" by (cases ?H) auto
  from Kn obtain t0 where t0: "t0 \<in> set ?K" by (cases ?K) auto
  have R1n: "?R1 \<noteq> []" using a0 h0 by (auto simp: concat_eq_Nil_conv)
  then obtain r0 where r0: "r0 \<in> set ?R1" by (cases ?R1) auto
  have RRn: "?RR \<noteq> []"
  proof
    assume "?RR = []"
    then have "\<forall>r \<in> set ?R1. map (\<lambda>t. r @ t) ?K = []"
      unfolding concat_eq_Nil_conv by simp
    with r0 Kn show False by simp
  qed
  have ne: "\<not> is_empty \<lparr>columns = ?cols, rows = ?RR\<rparr>"
    using RRn by (simp add: is_empty_def)
  have keep: "filter (\<lambda>c. c \<in> set ?cols)
                [''Year'', ''Batting_Average'', ''Career_Home_Runs'', ''Career_Strikeouts''] = ?keep"
    by simp
  have "distinct ?cols" "set ?keep \<subseteq> set ?cols" by auto
  from select_columns_present[of "\<lparr>columns = ?cols, rows = ?RR\<rparr>" ?keep] this
  have sel: "select_columns \<lparr>columns = ?cols, rows = ?RR\<rparr> ?keep =
               Inr \<lparr>columns = ?keep, rows = map ?f ?RR\<rparr>"
    by simp
  have r1: "map ?f ?RR =
            concat (map (\<lambda>a. concat (map (\<lambda>h. map (\<lambda>t. ?f ((a @ h) @ t)) ?K) ?H)) ?pr)"
    by (rule map_nested_rows)
  have Kl: "\<forall>t \<in> set ?K. ?kc = [] \<and> t = [] \<or>
              ?kc = [''League'', ''Career_Strikeouts''] \<and> length t = 2"
    using right_parts_strikeouts_length[OF k, of ?p] by auto
  have Hl: "\<forall>h \<in> set ?H. ?hc = [] \<and> h = [] \<or> ?hc = [''Career_Home_Runs''] \<and> length h = 1"
    using joined_length[of hr "''Career_Home_Runs''" ?p] by auto
  have r2: "concat (map (\<lambda>a. concat (map (\<lambda>h. map (\<lambda>t. ?f ((a @ h) @ t)) ?K) ?H)) ?pr) =
            concat (map (\<lambda>a. concat (map (\<lambda>h. map (\<lambda>t. [a ! 2, a ! 3] @ h @
                       (if rows k = [] then [] else [t ! 1])) ?K) ?H)) ?pr)"
  proof (rule nested_cong)
    fix a h t
    assume "a \<in> set ?pr" "h \<in> set ?H" "t \<in> set ?K"
    with batting_of_rows[OF b, of ?p] Hl Kl have
      "length a = 4"
      "?hc = [] \<and> h = [] \<or> ?hc = [''Career_Home_Runs''] \<and> length h = 1"
      "?kc = [] \<and> t = [] \<or> ?kc = [''League'', ''Career_Strikeouts''] \<and> length t = 2"
      by blast+
    from project_row[OF this]
    show "?f ((a @ h) @ t) = [a ! 2, a ! 3] @ h @ (if rows k = [] then [] else [t ! 1])"
      by (cases "rows k = []") simp_all
  qed
  have ya: "year_and_average b a = [a ! 2, a ! 3]" for a
    by (simp add: year_and_average_def cols eval_nat_numeral)
  have r3: "map (\<lambda>t. [a ! 2, a ! 3] @ h @ (if rows k = [] then [] else [t ! 1])) ?K =
            map (\<lambda>s. year_and_average b a @ h @ s) (joined k ''Career_Strikeouts'' ?p)" for a h
  proof (cases "rows k = []")
    case True
    then show ?thesis by (simp add: joined_def ya)
  next
    case False
    from right_parts_strikeouts[OF k False, of ?p, symmetric] False
    show ?thesis by (simp add: comp_def ya)
  qed
  have rows: "map ?f ?RR =
     concat (map (\<lambda>a. concat (map (\<lambda>h. map (\<lambda>s. year_and_average b a @ h @ s)
                                         (joined k ''Career_Strikeouts'' ?p)) ?H)) ?pr)"
    unfolding r1 r2 r3 ..
  show ?thesis
    unfolding combined_view_def
    by (simp only: e pl pf w1 w2 tr sum.case if_True if_False simp_thms dataframe.simps
        ne keep sel rows list.distinct)
qed

lemma concat_map_nonempty:
  assumes "\<forall>a \<in> set xs. f a \<noteq> []"
  shows "length xs \<le> length (concat (map f xs))"
  using assms
proof (induction xs)
  case Nil
  then show ?case by simp
next
  case (Cons a xs)
  then have "f a \<noteq> []" by simp
  then have "1 \<le> length (f a)" by (cases "f a") auto
  with Cons show ?case by simp
qed

text \<open>
  Claim C6. For a player of the batting table with a non-empty name, the player view
  shows one table: for every batting row of the player, in order, the year and the
  batting average, followed by the career home runs and the career strikeouts that the
  left joins on \<^verbatim>\<open>Name\<close> contribute, once for every combination of matching
  records. No batting row is lost. In particular, with exactly one home-run record and
  no strikeout record for the player, there is exactly one output row per batting row,
  each with that same \<^verbatim>\<open>Career_Home_Runs\<close>, and \<^verbatim>\<open>Career_Strikeouts\<close> is missing
  (or, when the strikeout table is empty, not a column).
\<close>

theorem combined_view_left_join:
  assumes "batting_table b" and "text_names b"
    and "home_run_table hr" and "text_names hr"
    and "strikeout_table k" and "text_names k"
    and "n \<noteq> []" and "batting_of b (StrV n) \<noteq> []"
  shows "\<exists>out.
           combined_view b hr k (StrV n) = Inr [Table out] \<and>
           columns out = [''Year'', ''Batting_Average''] @
                         (if rows hr = [] then [] else [''Career_Home_Runs'']) @
                         (if rows k = [] then [] else [''Career_Strikeouts'']) \<and>
           rows out =
             concat (map (\<lambda>a. concat (map (\<lambda>h. map (\<lambda>s. year_and_average b a @ h @ s)
                                        (joined k ''Career_Strikeouts'' (StrV n)))
                                (joined hr ''Career_Home_Runs'' (StrV n))))
                      (batting_of b (StrV n))) \<and>
           length (batting_of b (StrV n)) \<le> length (rows out) \<and>
           (\<forall>m. filter (\<lambda>r. r ! index_of (columns hr) ''Name'' = StrV n) (rows hr) = [m] \<and>
                filter (\<lambda>r. r ! index_of (columns k) ''Name'' = StrV n) (rows k) = [] \<longrightarrow>
                rows out =
                  map (\<lambda>a. year_and_average b a @ [m ! index_of (columns hr) ''Career_Home_Runs''] @
                            (if rows k = [] then [] else [NA]))
                    (batting_of b (StrV n)))"
proof -
  let ?rows = "concat (map (\<lambda>a. concat (map (\<lambda>h. map (\<lambda>s. year_and_average b a @ h @ s)
                                        (joined k ''Career_Strikeouts'' (StrV n)))
                                (joined hr ''Career_Home_Runs'' (StrV n))))
                      (batting_of b (StrV n)))"
  let ?out = "\<lparr>columns = [''Year'', ''Batting_Average''] @
                         (if rows hr = [] then [] else [''Career_Home_Runs'']) @
                         (if rows k = [] then [] else [''Career_Strikeouts'']),
               rows = ?rows\<rparr>"
  have v: "combined_view b hr k (StrV n) = Inr [Table ?out]"
    by (rule combined_view_typed[OF assms])
  have c: "columns ?out = [''Year'', ''Batting_Average''] @
                         (if rows hr = [] then [] else [''Career_Home_Runs'']) @
                         (if rows k = [] then [] else [''Career_Strikeouts''])"
    by simp
  have r: "rows ?out = ?rows" by simp
  have "\<forall>a \<in> set (batting_of b (StrV n)).
          concat (map (\<lambda>h. map (\<lambda>s. year_and_average b a @ h @ s)
                    (joined k ''Career_Strikeouts'' (StrV n)))
            (joined hr ''Career_Home_Runs'' (StrV n))) \<noteq> []"
    using joined_nonempty[of k "''Career_Strikeouts''" "StrV n"]
      joined_nonempty[of hr "''Career_Home_Runs''" "StrV n"]
    by (auto simp: concat_eq_Nil_conv neq_Nil_conv)
  from concat_map_nonempty[OF this]
  have l: "length (batting_of b (StrV n)) \<le> length (rows ?out)" by simp
  have p: "\<forall>m. filter (\<lambda>r. r ! index_of (columns hr) ''Name'' = StrV n) (rows hr) = [m] \<and>
                filter (\<lambda>r. r ! index_of (columns k) ''Name'' = StrV n) (rows k) = [] \<longrightarrow>
                rows ?out =
                  map (\<lambda>a. year_and_average b a @ [m ! index_of (columns hr) ''Career_Home_Runs''] @
                            (if rows k = [] then [] else [NA]))
                    (batting_of b (StrV n))"
  proof (intro allI impI)
    fix m
    assume a: "filter (\<lambda>r. r ! index_of (columns hr) ''Name'' = StrV n) (rows hr) = [m] \<and>
               filter (\<lambda>r. r ! index_of (columns k) ''Name'' = StrV n) (rows k) = []"
    then have "rows hr \<noteq> []" by auto
    with a have jh: "joined hr ''Career_Home_Runs'' (StrV n) =
                      [[m ! index_of (columns hr) ''Career_Home_Runs'']]"
      by (simp add: joined_def)
    from a have jk: "joined k ''Career_Strikeouts'' (StrV n) = [if rows k = [] then [] else [NA]]"
      by (simp add: joined_def)
    show "rows ?out =
            map (\<lambda>a. year_and_average b a @ [m ! index_of (columns hr) ''Career_Home_Runs''] @
                      (if rows k = [] then [] else [NA]))
              (batting_of b (StrV n))"
      unfolding r jh jk by simp
  qed
  show ?thesis by (rule exI[of _ ?out]) (intro conjI v c r l p)
qed

lemma pujols_tables:
  "batting_table pujols_batting" "text_names pujols_batting"
  "home_run_table pujols_home_runs" "text_names pujols_home_runs"
  "strikeout_table ryan_strikeouts" "text_names ryan_strikeouts"
  by (simp_all add: batting_table_def text_names_def home_run_table_def strikeout_table_def
      pujols_batting_def pujols_home_runs_def ryan_strikeouts_def is_text_def)

lemma pujols_rows:
  "batting_of pujols_batting (StrV ''Pujols'') =
     [[StrV ''Pujols'', StrV ''STL'', IntV 2001, FloatV 0x3FD50E5604189375],
      [StrV ''Pujols'', StrV ''STL'', IntV 2002, FloatV 0x3FD4189374BC6A7F]]"
  "filter (\<lambda>r. r ! index_of (columns pujols_home_runs) ''Name'' = StrV ''Pujols'')
     (rows pujols_home_runs) = [[StrV ''Pujols'', IntV 703]]"
  "filter (\<lambda>r. r ! index_of (columns ryan_strikeouts) ''Name'' = StrV ''Pujols'')
     (rows ryan_strikeouts) = []"
  by (simp_all add: batting_of_def pujols_batting_def pujols_home_runs_def ryan_strikeouts_def)

theorem combined_view_left_join_witness:
  "batting_table pujols_batting \<and> text_names pujols_batting \<and>
   home_run_table pujols_home_runs \<and> text_names pujols_home_runs \<and>
   strikeout_table ryan_strikeouts \<and> text_names ryan_strikeouts \<and>
   combined_view pujols_batting pujols_home_runs ryan_strikeouts (StrV ''Pujols'') =
     Inr [Table \<lparr>columns = [''Year'', ''Batting_Average'', ''Career_Home_Runs'', ''Career_Strikeouts''],
                 rows = [[IntV 2001, FloatV 0x3FD50E5604189375, IntV 703, NA],
                         [IntV 2002, FloatV 0x3FD4189374BC6A7F, IntV 703, NA]]\<rparr>]"
proof -
  have n: "''Pujols'' \<noteq> []" by simp
  have pr: "batting_of pujols_batting (StrV ''Pujols'') \<noteq> []" unfolding pujols_rows(1) by simp
  note th = combined_view_left_join[OF pujols_tables n pr]
  from th have "combined_view pujols_batting pujols_home_runs ryan_strikeouts (StrV ''Pujols'') =
     Inr [Table \<lparr>columns = [''Year'', ''Batting_Average'', ''Career_Home_Runs'', ''Career_Strikeouts''],
                 rows = [[IntV 2001, FloatV 0x3FD50E5604189375, IntV 703, NA],
                         [IntV 2002, FloatV 0x3FD4189374BC6A7F, IntV 703, NA]]\<rparr>]"
  proof (elim exE conjE)
    fix out
    assume v: "combined_view pujols_batting pujols_home_runs ryan_strikeouts (StrV ''Pujols'') =
                 Inr [Table out]"
      and c: "columns out = [''Year'', ''Batting_Average''] @
                (if rows pujols_home_runs = [] then [] else [''Career_Home_Runs'']) @
                (if rows ryan_strikeouts = [] then [] else [''Career_Strikeouts''])"
      and p: "\<forall>m. filter (\<lambda>r. r ! index_of (columns pujols_home_runs) ''Name'' = StrV ''Pujols'')
                     (rows pujols_home_runs) = [m] \<and>
                   filter (\<lambda>r. r ! index_of (columns ryan_strikeouts) ''Name'' = StrV ''Pujols'')
                     (rows ryan_strikeouts) = [] \<longrightarrow>
                   rows out =
                     map (\<lambda>a. year_and_average pujols_batting a @
                               [m ! index_of (columns pujols_home_runs) ''Career_Home_Runs''] @
                               (if rows ryan_strikeouts = [] then [] else [NA]))
                       (batting_of pujols_batting (StrV ''Pujols''))"
    from p[rule_format, of "[StrV ''Pujols'', IntV 703]"] pujols_rows(2,3)
    have "rows out =
            map (\<lambda>a. year_and_average pujols_batting a @
                      [[StrV ''Pujols'', IntV 703] ! index_of (columns pujols_home_runs) ''Career_Home_Runs''] @
                      (if rows ryan_strikeouts = [] then [] else [NA]))
              (batting_of pujols_batting (StrV ''Pujols''))"
      by simp
    then have r: "rows out = [[IntV 2001, FloatV 0x3FD50E5604189375, IntV 703, NA],
                              [IntV 2002, FloatV 0x3FD4189374BC6A7F, IntV 703, NA]]"
      unfolding pujols_rows(1)
      by (simp add: year_and_average_def pujols_batting_def pujols_home_runs_def
          ryan_strikeouts_def)
    from c have c': "columns out =
        [''Year'', ''Batting_Average'', ''Career_Home_Runs'', ''Career_Strikeouts'']"
      by (simp add: pujols_home_runs_def ryan_strikeouts_def)
    from c' r have "out = \<lparr>columns = [''Year'', ''Batting_Average'', ''Career_Home_Runs'',
                                      ''Career_Strikeouts''],
                           rows = [[IntV 2001, FloatV 0x3FD50E5604189375, IntV 703, NA],
                                   [IntV 2002, FloatV 0x3FD4189374BC6A7F, IntV 703, NA]]\<rparr>"
      by (cases out) simp
    with v show ?thesis by simp
  qed
  then show ?thesis by (intro conjI pujols_tables)
qed

section \<open>The importer\<close>





lemma normalize_label_example: "normalize_label '' Name'' = ''Name''"
  "normalize_label ''Career Home Runs'' = ''Career_Home_Runs''"
  by (simp_all add: normalize_label_def strip_def replace_spaces_def is_space_def)

lemma normalized_example:
  "normalized example_cast ''home_runs'' example_csv =
     \<lparr>columns = [''Name'', ''Career_Home_Runs''],
      rows = [[StrV ''Aaron'', IntV 755], [StrV ''Ruth'', IntV 714]]\<rparr>"
  by (simp add: normalized_def CSV_DTYPES_def example_csv_def normalize_label_example
      apply_dtype_def set_column_def astype_ignore_def example_cast_def is_text_def)

text \<open>
  Claim C7. Importing the same CSV file a second time, the file unchanged, succeeds
  again and leaves the store, and so the target table, as the first import left it.
\<close>

theorem import_one_idempotent:
  assumes "import_one cast fs csv_name table_name w = Inr w1"
  shows "\<exists>w2. import_one cast fs csv_name table_name w1 = Inr w2 \<and> db w2 = db w1"
  using assms by (auto simp: import_one_def split: option.splits sum.splits if_splits)

lemma import_one_example:
  "import_one example_cast example_fs ''home_runs.csv'' ''home_runs'' example_world =
     Inr \<lparr>db = (db example_world)(''home_runs'' \<mapsto>
               \<lparr>columns = [''Name'', ''Career_Home_Runs''],
                rows = [[StrV ''Aaron'', IntV 755], [StrV ''Ruth'', IntV 714]]\<rparr>),
          out = [Loaded ''home_runs.csv'' ''home_runs'' 2]\<rparr>"
  by (simp add: import_one_def example_fs_def normalized_example)
     (simp add: example_csv_def normalize_label_example example_world_def)

theorem import_one_idempotent_witness:
  "\<exists>w1 w2.
     import_one example_cast example_fs ''home_runs.csv'' ''home_runs'' example_world = Inr w1 \<and>
     import_one example_cast example_fs ''home_runs.csv'' ''home_runs'' w1 = Inr w2 \<and>
     db w2 = db w1 \<and>
     db w2 ''home_runs'' =
       Some \<lparr>columns = [''Name'', ''Career_Home_Runs''],
             rows = [[StrV ''Aaron'', IntV 755], [StrV ''Ruth'', IntV 714]]\<rparr>"
proof -
  from import_one_idempotent[OF import_one_example] obtain w2 where
    w2: "import_one example_cast example_fs ''home_runs.csv'' ''home_runs''
           \<lparr>db = (db example_world)(''home_runs'' \<mapsto>
               \<lparr>columns = [''Name'', ''Career_Home_Runs''],
                rows = [[StrV ''Aaron'', IntV 755], [StrV ''Ruth'', IntV 714]]\<rparr>),
            out = [Loaded ''home_runs.csv'' ''home_runs'' 2]\<rparr> = Inr w2"
      "db w2 = (db example_world)(''home_runs'' \<mapsto>
               \<lparr>columns = [''Name'', ''Career_Home_Runs''],
                rows = [[StrV ''Aaron'', IntV 755], [StrV ''Ruth'', IntV 714]]\<rparr>)"
    by auto
  show ?thesis
    by (rule exI, rule exI[of _ w2], intro conjI, rule import_one_example, rule w2(1))
       (simp_all add: w2(2))
qed






end
